theory Spec2Isabelle
  imports Complex_Main
begin

section \<open>Data model (src/server.js)\<close>

text \<open>
  The two tables of \<^verbatim>\<open>initDB\<close> that the shortening and redirect handlers touch.
  Timestamps are milliseconds since the epoch, as \<^verbatim>\<open>Date.now()\<close> gives them; the
  range of a \<^verbatim>\<open>Date\<close> and of a \<^verbatim>\<open>TIMESTAMP\<close> column is applied where the handler
  builds the expiry and the insert stores it. Row ids come from a counter that advances when a row is stored
  (ids are opaque: only their distinctness is used). A request carries the identity that
  \<^verbatim>\<open>authenticateToken\<close> has put into \<^verbatim>\<open>req.user\<close>; the \<^verbatim>\<open>users\<close> table is
  not modelled.
\<close>

record url_row =
  row_id :: nat
  user_id :: nat
  original_url :: string
  short_code :: string
  custom_alias :: "string option"
  created_at :: int
  expires_at :: "int option"
  is_active :: bool
  click_count :: int

record analytics_row =
  analytics_id :: nat
  url_id :: nat
  clicked_at :: int
  ip_address :: string
  user_agent :: "string option"
  referer :: "string option"

text \<open>
  The world is the Postgres database (two tables and their sequences) and the Redis
  cache. A cache entry is the row that was serialised into it and the instant at which
  Redis drops it; the key \<^verbatim>\<open>url:${shortCode}\<close> is kept as the short code itself.
\<close>

record world =
  urls :: "url_row list"
  analytics :: "analytics_row list"
  urls_id_seq :: nat
  analytics_id_seq :: nat
  cache :: "string \<rightharpoonup> (url_row \<times> int)"

text \<open>
  What a single request sees of its environment: the external validator
  (\<^verbatim>\<open>validator.isURL\<close> with the handler's options), \<^verbatim>\<open>process.env.BASE_URL\<close>, the
  successive results of \<^verbatim>\<open>Math.random()\<close>, and which of its awaited calls throw for
  reasons outside the model (connection lost, timeout). \<open>select_fails k\<close> is about the
  \<open>k\<close>-th \<^verbatim>\<open>SELECT\<close> the request issues, counted from 0.
\<close>

record env =
  validateUrl :: "string \<Rightarrow> bool"
  base_url :: string
  random :: "nat \<Rightarrow> real"
  select_fails :: "nat \<Rightarrow> bool"
  insert_fails :: bool
  cache_get_fails :: bool
  cache_set_fails :: bool
  update_fails :: bool
  analytics_fails :: bool

record shorten_req =
  originalUrl :: string
  customAlias :: "string option"
  expiresIn :: "int option"
  userId :: nat

record click_ctx =
  req_ip :: string
  req_user_agent :: "string option"
  req_referer :: "string option"

text \<open>
  A JavaScript \<^verbatim>\<open>Date\<close>: a time value in milliseconds, or the Invalid Date that
  \<^verbatim>\<open>new Date(t)\<close> gives when \<open>t\<close> is beyond 8.64e15 milliseconds on either side of
  the epoch.
\<close>

datatype js_date = ValidDate int | InvalidDate

definition new_Date :: "int \<Rightarrow> js_date" where
  "new_Date t = (if \<bar>t\<bar> \<le> 8640000000000000 then ValidDate t else InvalidDate)"

text \<open>
  The responses of the two handlers. \<open>Created\<close> carries the 201 body in the order
  \<^verbatim>\<open>shortUrl, shortCode, originalUrl, expiresAt, createdAt\<close>.
\<close>

datatype response =
    Created string string string "js_date option" int
  | Error400 string
  | Error404
  | Error410
  | Redirect301 string
  | Error500

fun status :: "response \<Rightarrow> nat" where
  "status (Created _ _ _ _ _) = 201"
| "status (Error400 _) = 400"
| "status Error404 = 404"
| "status Error410 = 410"
| "status (Redirect301 _) = 301"
| "status Error500 = 500"

datatype db_error =
  StringTooLong | DatetimeRefused | UniqueViolation | IntegerOutOfRange | ForeignKeyViolation

section \<open>Utility functions\<close>

definition chars :: string where
  "chars = ''ABCDEFGHIJKLMNOPQRSTUVWXYZabcdefghijklmnopqrstuvwxyz0123456789''"

text \<open>\<^verbatim>\<open>String.prototype.charAt\<close>: the empty string out of range.\<close>

definition charAt :: "string \<Rightarrow> nat \<Rightarrow> string" where
  "charAt s k = (if k < length s then [s ! k] else [])"

text \<open>
  The body of the \<^verbatim>\<open>for\<close> loop of \<^verbatim>\<open>generateShortCode\<close>, with \<open>n\<close> iterations
  left and \<open>pos\<close> the index of the next \<^verbatim>\<open>Math.random()\<close> result.
\<close>

fun gen_chars :: "(nat \<Rightarrow> real) \<Rightarrow> nat \<Rightarrow> nat \<Rightarrow> string" where
  "gen_chars rnd pos 0 = []"
| "gen_chars rnd pos (Suc n) =
     charAt chars (nat \<lfloor>rnd pos * real (length chars)\<rfloor>) @ gen_chars rnd (Suc pos) n"

definition generateShortCode :: "(nat \<Rightarrow> real) \<Rightarrow> nat \<Rightarrow> string" where
  "generateShortCode rnd pos = gen_chars rnd pos 7"

section \<open>Cache helpers\<close>

text \<open>
  \<^verbatim>\<open>getCachedUrl\<close> answers \<^verbatim>\<open>null\<close> on a miss, on an entry whose time to live has
  run out, and when the Redis call throws; \<^verbatim>\<open>setCachedUrl\<close> stores for 3600 seconds
  and swallows a failure.
\<close>

definition getCachedUrl :: "env \<Rightarrow> int \<Rightarrow> string \<Rightarrow> world \<Rightarrow> url_row option" where
  "getCachedUrl e now code w =
     (if cache_get_fails e then None
      else case cache w code of
             None \<Rightarrow> None
           | Some (r, dies) \<Rightarrow> if now < dies then Some r else None)"

definition setCachedUrl :: "env \<Rightarrow> int \<Rightarrow> string \<Rightarrow> url_row \<Rightarrow> world \<Rightarrow> world" where
  "setCachedUrl e now code urlData w =
     (if cache_set_fails e then w
      else w\<lparr>cache := (cache w)(code \<mapsto> (urlData, now + 3600 * 1000))\<rparr>)"

section \<open>The statements sent to Postgres\<close>

text \<open>
  Storing into \<^verbatim>\<open>VARCHAR(n)\<close>: a longer string is an error unless the excess is all
  spaces, in which case it is cut to \<open>n\<close> characters.
\<close>

definition pg_varchar :: "nat \<Rightarrow> string \<Rightarrow> string option" where
  "pg_varchar n s =
     (if length s \<le> n then Some s
      else if list_all (\<lambda>c. c = CHR '' '') (drop n s) then Some (take n s)
      else None)"

definition pg_varchar_null :: "nat \<Rightarrow> string option \<Rightarrow> string option option" where
  "pg_varchar_null n v = (case v of None \<Rightarrow> Some None | Some s \<Rightarrow> map_option Some (pg_varchar n s))"

text \<open>
  Storing the handler's \<^verbatim>\<open>expiresAt\<close> into \<^verbatim>\<open>expires_at TIMESTAMP\<close>: \<^verbatim>\<open>null\<close>
  is stored as \<^verbatim>\<open>NULL\<close>; an Invalid Date reaches Postgres as text it cannot read
  and the statement fails; a date before the first day of the type's range
  (24 November 4714 BC) fails too. The type's last day is later than any
  \<^verbatim>\<open>Date\<close>. The server's clock is taken to run in UTC.
\<close>

definition pg_timestamp :: "js_date option \<Rightarrow> int option option" where
  "pg_timestamp v =
     (case v of
        None \<Rightarrow> Some None
      | Some InvalidDate \<Rightarrow> None
      | Some (ValidDate t) \<Rightarrow> if - 210866803200000 \<le> t then Some (Some t) else None)"

text \<open>\<^verbatim>\<open>SELECT id FROM urls WHERE short_code = $1\<close>\<close>

definition select_by_code :: "world \<Rightarrow> string \<Rightarrow> url_row list" where
  "select_by_code w code = filter (\<lambda>r. short_code r = code) (urls w)"

text \<open>\<^verbatim>\<open>SELECT * FROM urls WHERE short_code = $1 AND is_active = TRUE\<close>\<close>

definition select_active_by_code :: "world \<Rightarrow> string \<Rightarrow> url_row list" where
  "select_active_by_code w code = filter (\<lambda>r. short_code r = code \<and> is_active r) (urls w)"

text \<open>
  \<^verbatim>\<open>INSERT INTO urls (user_id, original_url, short_code, custom_alias, expires_at)
  VALUES ($1, $2, $3, $4, $5) RETURNING *\<close> under the table's declaration:
  \<^verbatim>\<open>short_code VARCHAR(20) UNIQUE NOT NULL\<close>, \<^verbatim>\<open>custom_alias VARCHAR(50)\<close>,
  \<^verbatim>\<open>expires_at TIMESTAMP\<close>, the
  defaults of \<^verbatim>\<open>created_at\<close>, \<^verbatim>\<open>is_active\<close> and \<^verbatim>\<open>click_count\<close>.
  \<open>new_row\<close> is the row the statement stores and returns.
\<close>

definition new_row :: "int \<Rightarrow> nat \<Rightarrow> string \<Rightarrow> string \<Rightarrow> string option \<Rightarrow> int option \<Rightarrow> world \<Rightarrow> url_row" where
  "new_row now uid url sc ca expires w =
     \<lparr>row_id = Suc (urls_id_seq w), user_id = uid, original_url = url, short_code = sc,
      custom_alias = ca, created_at = now, expires_at = expires, is_active = True,
      click_count = 0\<rparr>"

definition insert_url ::
  "int \<Rightarrow> nat \<Rightarrow> string \<Rightarrow> string \<Rightarrow> string option \<Rightarrow> js_date option \<Rightarrow> world
     \<Rightarrow> db_error + (url_row \<times> world)" where
  "insert_url now uid url code alias expiresAt w =
     (case pg_varchar 20 code of
        None \<Rightarrow> Inl StringTooLong
      | Some sc \<Rightarrow>
          (case pg_varchar_null 50 alias of
             None \<Rightarrow> Inl StringTooLong
           | Some ca \<Rightarrow>
               (case pg_timestamp expiresAt of
                  None \<Rightarrow> Inl DatetimeRefused
                | Some expires \<Rightarrow>
                    if filter (\<lambda>r. short_code r = sc) (urls w) \<noteq> [] then Inl UniqueViolation
                    else Inr (new_row now uid url sc ca expires w,
                              w\<lparr>urls := urls w @ [new_row now uid url sc ca expires w],
                                urls_id_seq := Suc (urls_id_seq w)\<rparr>))))"

text \<open>
  \<^verbatim>\<open>UPDATE urls SET click_count = click_count + 1 WHERE id = $1\<close>. The column is a
  32-bit \<^verbatim>\<open>INTEGER\<close>: the statement fails, changing nothing, when the sum leaves its
  range. \<open>click_row\<close> is what the statement does to one row.
\<close>

definition click_row :: "nat \<Rightarrow> url_row \<Rightarrow> url_row" where
  "click_row rid r = (if row_id r = rid then r\<lparr>click_count := click_count r + 1\<rparr> else r)"

definition update_click_count :: "nat \<Rightarrow> world \<Rightarrow> db_error + world" where
  "update_click_count rid w =
     (if filter (\<lambda>r. row_id r = rid \<and> 2147483647 < click_count r + 1) (urls w) \<noteq> []
      then Inl IntegerOutOfRange
      else Inr (w\<lparr>urls := map (click_row rid) (urls w)\<rparr>))"

text \<open>
  \<^verbatim>\<open>INSERT INTO analytics (url_id, ip_address, user_agent, referer) VALUES ...\<close>,
  with \<^verbatim>\<open>url_id INTEGER REFERENCES urls(id)\<close>.
\<close>

definition insert_analytics :: "int \<Rightarrow> nat \<Rightarrow> click_ctx \<Rightarrow> world \<Rightarrow> db_error + world" where
  "insert_analytics now rid ctx w =
     (if filter (\<lambda>r. row_id r = rid) (urls w) = [] then Inl ForeignKeyViolation
      else Inr (w\<lparr>analytics := analytics w @
                     [\<lparr>analytics_id = Suc (analytics_id_seq w), url_id = rid, clicked_at = now,
                       ip_address = req_ip ctx, user_agent = req_user_agent ctx,
                       referer = req_referer ctx\<rparr>],
                   analytics_id_seq := Suc (analytics_id_seq w)\<rparr>))"

section \<open>POST /api/shorten\<close>

text \<open>JavaScript truthiness of the two optional body fields.\<close>

definition alias_given :: "string option \<Rightarrow> bool" where
  "alias_given a = (case a of None \<Rightarrow> False | Some s \<Rightarrow> s \<noteq> [])"

definition alias_text :: "string option \<Rightarrow> string" where
  "alias_text a = (case a of None \<Rightarrow> [] | Some s \<Rightarrow> s)"

text \<open>
  \<^verbatim>\<open>let expiresAt = null; if (expiresIn) { expiresAt = new Date(Date.now() + expiresIn *
  24 * 60 * 60 * 1000) }\<close>, for a whole number of days. A sum beyond the range of a
  \<^verbatim>\<open>Date\<close> gives the Invalid Date.
\<close>

definition compute_expiresAt :: "int \<Rightarrow> int option \<Rightarrow> js_date option" where
  "compute_expiresAt now ei =
     (case ei of
        None \<Rightarrow> None
      | Some d \<Rightarrow> if d = 0 then None else Some (new_Date (now + d * 24 * 60 * 60 * 1000)))"

text \<open>
  The \<^verbatim>\<open>do { ... } while (true)\<close> loop: attempt \<open>k\<close> draws a candidate and asks the
  store whether a row has it. The result is \<open>None\<close> when the loop never leaves,
  \<open>Some (Inl ())\<close> when a query throws, \<open>Some (Inr code)\<close> at the \<^verbatim>\<open>break\<close>.
\<close>

partial_function (option) generate_unique :: "env \<Rightarrow> world \<Rightarrow> nat \<Rightarrow> (unit + string) option" where
  "generate_unique e w k =
     (if select_fails e k then Some (Inl ())
      else if select_by_code w (generateShortCode (random e) (7 * k)) = []
           then Some (Inr (generateShortCode (random e) (7 * k)))
      else generate_unique e w (Suc k))"

text \<open>
  From the computation of \<^verbatim>\<open>expiresAt\<close> to the response: the insert, the write-through
  to the cache under the handler's \<^verbatim>\<open>shortCode\<close>, the 201 body. Any error of the insert
  lands in the handler's \<^verbatim>\<open>catch\<close>.
\<close>

definition store_and_respond :: "env \<Rightarrow> int \<Rightarrow> shorten_req \<Rightarrow> string \<Rightarrow> world \<Rightarrow> response \<times> world" where
  "store_and_respond e now req shortCode w =
     (if insert_fails e then (Error500, w)
      else case insert_url now (userId req) (originalUrl req) shortCode (customAlias req)
                  (compute_expiresAt now (expiresIn req)) w of
             Inl err \<Rightarrow> (Error500, w)
           | Inr (urlData, w') \<Rightarrow>
               (Created (base_url e @ ''/'' @ shortCode) shortCode (originalUrl req)
                        (compute_expiresAt now (expiresIn req)) (created_at urlData),
                setCachedUrl e now shortCode urlData w'))"

text \<open>The handler; \<open>None\<close> when it never responds.\<close>

definition shorten :: "env \<Rightarrow> int \<Rightarrow> shorten_req \<Rightarrow> world \<Rightarrow> (response \<times> world) option" where
  "shorten e now req w =
     (if \<not> validateUrl e (originalUrl req) then Some (Error400 ''Invalid URL format'', w)
      else if alias_given (customAlias req) then
        (if select_fails e 0 then Some (Error500, w)
         else if select_by_code w (alias_text (customAlias req)) \<noteq> []
              then Some (Error400 ''Custom alias already taken'', w)
         else Some (store_and_respond e now req (alias_text (customAlias req)) w))
      else
        (case generate_unique e w 0 of
           None \<Rightarrow> None
         | Some (Inl u) \<Rightarrow> Some (Error500, w)
         | Some (Inr code) \<Rightarrow> Some (store_and_respond e now req code w)))"

section \<open>GET /:shortCode\<close>

text \<open>
  The router hands this handler every \<^verbatim>\<open>GET\<close> whose path is a single segment other
  than \<^verbatim>\<open>health\<close>, which an earlier route answers; the definitions below are the
  handler itself.
\<close>

text \<open>
  The task handed to \<^verbatim>\<open>setImmediate\<close>: the two statements in one \<^verbatim>\<open>try\<close> block,
  the \<^verbatim>\<open>catch\<close> only logging.
\<close>

definition click_recorder :: "env \<Rightarrow> int \<Rightarrow> url_row \<Rightarrow> click_ctx \<Rightarrow> world \<Rightarrow> world" where
  "click_recorder e now urlData ctx w =
     (if update_fails e then w
      else case update_click_count (row_id urlData) w of
             Inl err \<Rightarrow> w
           | Inr w1 \<Rightarrow>
               (if analytics_fails e then w1
                else (case insert_analytics now (row_id urlData) ctx w1 of
                        Inl err' \<Rightarrow> w1
                      | Inr w2 \<Rightarrow> w2)))"

definition is_expired :: "int \<Rightarrow> url_row \<Rightarrow> bool" where
  "is_expired now urlData = (case expires_at urlData of None \<Rightarrow> False | Some t \<Rightarrow> t < now)"

text \<open>
  The part of the handler after \<^verbatim>\<open>urlData\<close> is known. The response is fixed before
  the deferred task runs; the world returned is the one the task leaves.
\<close>

definition respond_redirect :: "env \<Rightarrow> int \<Rightarrow> click_ctx \<Rightarrow> url_row \<Rightarrow> world \<Rightarrow> response \<times> world" where
  "respond_redirect e now ctx urlData w =
     (if is_expired now urlData then (Error410, w)
      else (Redirect301 (original_url urlData), click_recorder e now urlData ctx w))"

definition redirect :: "env \<Rightarrow> int \<Rightarrow> string \<Rightarrow> click_ctx \<Rightarrow> world \<Rightarrow> response \<times> world" where
  "redirect e now shortCode ctx w =
     (case getCachedUrl e now shortCode w of
        Some urlData \<Rightarrow> respond_redirect e now ctx urlData w
      | None \<Rightarrow>
          if select_fails e 0 then (Error500, w)
          else (case select_active_by_code w shortCode of
                  [] \<Rightarrow> (Error404, w)
                | urlData # rest \<Rightarrow>
                    respond_redirect e now ctx urlData (setCachedUrl e now shortCode urlData w)))"

section \<open>Two shortening requests in flight\<close>

text \<open>
  A handler runs until its next \<^verbatim>\<open>await\<close>, and another request may run in between.
  For a request that carries a custom alias the handler is cut after the existence
  check: \<open>Ready\<close> has not queried yet, \<open>Checked\<close> has seen no row with the alias and
  has not inserted yet, \<open>Done\<close> has responded.
\<close>

datatype task = Ready | Checked | Done response

fun alias_step :: "env \<Rightarrow> int \<Rightarrow> shorten_req \<Rightarrow> task \<Rightarrow> world \<Rightarrow> task \<times> world" where
  "alias_step e now req Ready w =
     (if \<not> validateUrl e (originalUrl req) then (Done (Error400 ''Invalid URL format''), w)
      else if select_fails e 0 then (Done Error500, w)
      else if select_by_code w (alias_text (customAlias req)) \<noteq> []
           then (Done (Error400 ''Custom alias already taken''), w)
      else (Checked, w))"
| "alias_step e now req Checked w =
     (case store_and_respond e now req (alias_text (customAlias req)) w of
        (r, w') \<Rightarrow> (Done r, w'))"
| "alias_step e now req (Done r) w = (Done r, w)"

text \<open>
  A schedule says which of two requests \<open>A\<close> and \<open>B\<close> takes the next step
  (\<open>True\<close> for \<open>A\<close>).
\<close>

fun interleave ::
  "env \<Rightarrow> shorten_req \<Rightarrow> env \<Rightarrow> shorten_req \<Rightarrow> int \<Rightarrow> bool list \<Rightarrow> task \<times> task \<times> world
     \<Rightarrow> task \<times> task \<times> world" where
  "interleave eA reqA eB reqB now [] s = s"
| "interleave eA reqA eB reqB now (a # sched) (tA, tB, w) =
     (if a then (case alias_step eA now reqA tA w of
                   (tA', w') \<Rightarrow> interleave eA reqA eB reqB now sched (tA', tB, w'))
      else (case alias_step eB now reqB tB w of
              (tB', w') \<Rightarrow> interleave eA reqA eB reqB now sched (tA, tB', w')))"

section \<open>States the handlers can reach\<close>

text \<open>
  Every key of the cache was written by a handler after it stored or read the row
  under that key: the store holds a row whose short code is the key, or the key as
  \<^verbatim>\<open>VARCHAR(20)\<close> keeps it.
\<close>

definition cache_backed :: "world \<Rightarrow> bool" where
  "cache_backed w =
     (\<forall>c. cache w c \<noteq> None \<longrightarrow>
          select_by_code w c \<noteq> [] \<or> (\<exists>sc. pg_varchar 20 c = Some sc \<and> select_by_code w sc \<noteq> []))"

text \<open>
  The worlds that follow a given one: any number of shortening and redirect requests,
  in any order, each with its own environment, clock reading and outcome.
\<close>

inductive later :: "world \<Rightarrow> world \<Rightarrow> bool" where
  later_refl: "later w w"
| later_shorten: "later w w1 \<Longrightarrow> shorten e now req w1 = Some (r, w2) \<Longrightarrow> later w w2"
| later_redirect: "later w w1 \<Longrightarrow> redirect e now code ctx w1 = (r, w2) \<Longrightarrow> later w w2"

text \<open>
  A short code is settled without expiry when the store holds a row under the code as
  \<^verbatim>\<open>VARCHAR(20)\<close> keeps it, and neither a row nor a cache entry under the code
  carries an \<open>expires_at\<close>.
\<close>

definition unexpiring :: "string \<Rightarrow> world \<Rightarrow> bool" where
  "unexpiring code w =
     ((\<exists>sc. pg_varchar 20 code = Some sc \<and> select_by_code w sc \<noteq> [])
      \<and> (\<forall>r\<in>set (urls w). short_code r = code \<longrightarrow> expires_at r = None)
      \<and> (\<forall>c dies. cache w code = Some (c, dies) \<longrightarrow> expires_at c = None))"

section \<open>Sample inputs\<close>

text \<open>
  An environment in which nothing fails and every \<^verbatim>\<open>Math.random()\<close> is 0 (so every
  candidate is \<^verbatim>\<open>AAAAAAA\<close>), an empty world, and a stored row, for the concrete
  instances below.
\<close>

definition quiet_env :: env where
  "quiet_env = \<lparr>validateUrl = (\<lambda>u. True), base_url = ''https://linksnap.io'',
                 random = (\<lambda>i. 0), select_fails = (\<lambda>k. False), insert_fails = False,
                 cache_get_fails = False, cache_set_fails = False, update_fails = False,
                 analytics_fails = False\<rparr>"

definition empty_world :: world where
  "empty_world = \<lparr>urls = [], analytics = [], urls_id_seq = 0, analytics_id_seq = 0,
                   cache = Map.empty\<rparr>"

definition sample_req :: shorten_req where
  "sample_req = \<lparr>originalUrl = ''https://example.com/a'', customAlias = None,
                  expiresIn = None, userId = 1\<rparr>"

definition sample_ctx :: click_ctx where
  "sample_ctx = \<lparr>req_ip = ''203.0.113.7'', req_user_agent = None, req_referer = None\<rparr>"

definition sample_row :: url_row where
  "sample_row = \<lparr>row_id = 1, user_id = 1, original_url = ''https://example.com/a'',
                  short_code = ''AAAAAAA'', custom_alias = None, created_at = 0,
                  expires_at = None, is_active = True, click_count = 0\<rparr>"

definition one_row_world :: "url_row \<Rightarrow> world" where
  "one_row_world r = \<lparr>urls = [r], analytics = [], urls_id_seq = 1, analytics_id_seq = 0,
                       cache = Map.empty\<rparr>"


section \<open>The generator\<close>







lemma generate_unique_first_free:
  assumes "\<forall>j\<le>k. \<not> select_fails e j"
    and "\<forall>j<k. select_by_code w (generateShortCode (random e) (7 * j)) \<noteq> []"
    and "select_by_code w (generateShortCode (random e) (7 * k)) = []"
    and "i \<le> k"
  shows "generate_unique e w i = Some (Inr (generateShortCode (random e) (7 * k)))"
  using assms(4)
proof (induction "k - i" arbitrary: i)
  case 0
  then have "i = k" by simp
  then show ?case using assms(1,3) by (subst generate_unique.simps) simp
next
  case (Suc d)
  then have lt: "i < k" and d: "d = k - Suc i" and le: "Suc i \<le> k" by auto
  have "generate_unique e w i = generate_unique e w (Suc i)"
    using assms(1,2) lt by (subst generate_unique.simps) simp
  with Suc.hyps(1)[OF d le] show ?case by simp
qed

lemma generate_unique_all_collide:
  assumes "\<forall>j. \<not> select_fails e j \<and> select_by_code w (generateShortCode (random e) (7 * j)) \<noteq> []"
  shows "generate_unique e w i = None"
proof -
  have "\<not> (\<forall>j. \<not> select_fails e j \<and> select_by_code w (generateShortCode (random e) (7 * j)) \<noteq> [])"
    if "generate_unique e w i = Some y" for y
    using that
    by (rule generate_unique.raw_induct
          [where P = "\<lambda>e w k y. \<not> (\<forall>j. \<not> select_fails e j \<and>
                         select_by_code w (generateShortCode (random e) (7 * j)) \<noteq> [])", rotated])
       (auto split: if_splits)
  with assms show ?thesis by (cases "generate_unique e w i") auto
qed


section \<open>Allocation and resolution\<close>

lemma pg_varchar_short: "length s \<le> n \<Longrightarrow> pg_varchar n s = Some s"
  by (simp add: pg_varchar_def)


lemma insert_url_fresh:
  assumes "pg_varchar 20 code = Some sc" "pg_varchar_null 50 alias = Some ca"
    and "pg_timestamp expiresAt = Some ex" "select_by_code w sc = []"
  shows "insert_url now uid url code alias expiresAt w =
           Inr (new_row now uid url sc ca ex w,
                w\<lparr>urls := urls w @ [new_row now uid url sc ca ex w], urls_id_seq := Suc (urls_id_seq w)\<rparr>)"
  using assms by (simp add: insert_url_def select_by_code_def)

lemma pg_timestamp_null: "pg_timestamp None = Some None"
  by (simp add: pg_timestamp_def)

lemma insert_url_refused:
  assumes "pg_timestamp expiresAt = None"
  shows "insert_url now uid url code alias expiresAt w = Inl StringTooLong
       \<or> insert_url now uid url code alias expiresAt w = Inl DatetimeRefused"
  using assms by (simp add: insert_url_def split: option.splits)

lemma cache_backed_free:
  assumes "cache_backed w" "pg_varchar 20 c = Some sc" "select_by_code w sc = []"
    and "select_by_code w c = []"
  shows "cache w c = None"
proof (cases "cache w c")
  case None
  then show ?thesis .
next
  case (Some v)
  then have "cache w c \<noteq> None" by simp
  with assms(1) have "select_by_code w c \<noteq> [] \<or>
      (\<exists>sc'. pg_varchar 20 c = Some sc' \<and> select_by_code w sc' \<noteq> [])"
    unfolding cache_backed_def by blast
  with assms(2,3,4) show ?thesis by auto
qed



lemma candidate_zero: "generateShortCode (\<lambda>i. 0) p = ''AAAAAAA''"
  by (simp add: generateShortCode_def eval_nat_numeral charAt_def chars_def)






lemma candidate_after_eleven:
  "generateShortCode (\<lambda>i. if i = 77 then 1 / 62 else 0) 77 = ''BAAAAAA''"
  by (simp add: generateShortCode_def eval_nat_numeral charAt_def chars_def)

lemma candidate_before_eleven:
  "p + 7 \<le> 77 \<Longrightarrow> generateShortCode (\<lambda>i. if i = 77 then 1 / 62 else 0) p = ''AAAAAAA''"
  by (simp add: generateShortCode_def eval_nat_numeral charAt_def chars_def)

section \<open>The generate-and-check loop\<close>

text \<open>
  With the candidate \<^verbatim>\<open>AAAAAAA\<close> taken and a generator that keeps drawing it, the
  handler never responds; with eleven such draws followed by a free candidate, the
  twelfth attempt creates the record.
\<close>

theorem generate_loop_unbounded_counterexample:
  "shorten quiet_env 1000 sample_req (one_row_world sample_row) = None
   \<and> map_option fst (shorten (quiet_env\<lparr>random := (\<lambda>i. if i = 77 then 1 / 62 else 0)\<rparr>) 1000 sample_req
                        (one_row_world sample_row))
       = Some (Created ''https://linksnap.io/BAAAAAA'' ''BAAAAAA'' ''https://example.com/a'' None 1000)"
proof -
  have "generate_unique quiet_env (one_row_world sample_row) 0 = None"
    by (rule generate_unique_all_collide)
       (simp add: quiet_env_def candidate_zero select_by_code_def one_row_world_def sample_row_def)
  then have a: "shorten quiet_env 1000 sample_req (one_row_world sample_row) = None"
    by (simp add: shorten_def quiet_env_def sample_req_def alias_given_def)
  let ?e = "quiet_env\<lparr>random := (\<lambda>i. if i = 77 then 1 / 62 else 0)\<rparr>"
  have "generate_unique ?e (one_row_world sample_row) 0
          = Some (Inr (generateShortCode (random ?e) (7 * 11)))"
    by (rule generate_unique_first_free)
       (auto simp: quiet_env_def candidate_before_eleven candidate_after_eleven select_by_code_def
          one_row_world_def sample_row_def)
  then have g: "generate_unique ?e (one_row_world sample_row) 0 = Some (Inr ''BAAAAAA'')"
    by (simp add: candidate_after_eleven quiet_env_def)
  have v: "validateUrl quiet_env (originalUrl sample_req)" "\<not> alias_given (customAlias sample_req)"
    by (simp_all add: quiet_env_def sample_req_def alias_given_def)
  have s: "shorten ?e 1000 sample_req (one_row_world sample_row)
             = Some (store_and_respond ?e 1000 sample_req ''BAAAAAA'' (one_row_world sample_row))"
    by (simp add: shorten_def v g)
  have b: "map_option fst (shorten ?e 1000 sample_req (one_row_world sample_row))
       = Some (Created ''https://linksnap.io/BAAAAAA'' ''BAAAAAA'' ''https://example.com/a'' None 1000)"
    unfolding s
    by (simp add: store_and_respond_def insert_url_def pg_varchar_def
          pg_varchar_null_def pg_timestamp_def new_row_def compute_expiresAt_def quiet_env_def
          sample_req_def one_row_world_def sample_row_def)
  from a b show ?thesis by simp
qed

text \<open>
  C2 (as amended): for a request without a custom alias, the loop draws a new candidate
  after every collision, with no bound on the number of attempts and no outcome that
  gives up: it leaves with the first candidate the store does not hold, however many
  attempts that takes, and the handler goes on to insert it; when every candidate
  collides the handler never responds.
\<close>

theorem generate_loop_first_free:
  assumes "validateUrl e (originalUrl req)" "\<not> alias_given (customAlias req)"
  shows "((\<forall>j\<le>k. \<not> select_fails e j)
          \<and> (\<forall>j<k. select_by_code w (generateShortCode (random e) (7 * j)) \<noteq> [])
          \<and> select_by_code w (generateShortCode (random e) (7 * k)) = []
          \<longrightarrow> shorten e now req w
                = Some (store_and_respond e now req (generateShortCode (random e) (7 * k)) w))
       \<and> ((\<forall>j. \<not> select_fails e j \<and> select_by_code w (generateShortCode (random e) (7 * j)) \<noteq> [])
          \<longrightarrow> shorten e now req w = None)"
proof (intro conjI impI)
  assume "(\<forall>j\<le>k. \<not> select_fails e j)
          \<and> (\<forall>j<k. select_by_code w (generateShortCode (random e) (7 * j)) \<noteq> [])
          \<and> select_by_code w (generateShortCode (random e) (7 * k)) = []"
  then have "generate_unique e w 0 = Some (Inr (generateShortCode (random e) (7 * k)))"
    by (intro generate_unique_first_free) auto
  with assms show "shorten e now req w
                = Some (store_and_respond e now req (generateShortCode (random e) (7 * k)) w)"
    by (simp add: shorten_def)
next
  assume "\<forall>j. \<not> select_fails e j \<and> select_by_code w (generateShortCode (random e) (7 * j)) \<noteq> []"
  then have "generate_unique e w 0 = None" by (rule generate_unique_all_collide)
  with assms show "shorten e now req w = None" by (simp add: shorten_def)
qed


theorem generate_loop_first_free_witness:
  "validateUrl (quiet_env\<lparr>random := (\<lambda>i. if i = 77 then 1 / 62 else 0)\<rparr>) (originalUrl sample_req)
   \<and> \<not> alias_given (customAlias sample_req)
   \<and> shorten (quiet_env\<lparr>random := (\<lambda>i. if i = 77 then 1 / 62 else 0)\<rparr>) 1000 sample_req
         (one_row_world sample_row)
       = Some (store_and_respond (quiet_env\<lparr>random := (\<lambda>i. if i = 77 then 1 / 62 else 0)\<rparr>) 1000
                 sample_req ''BAAAAAA'' (one_row_world sample_row))"
proof -
  let ?e = "quiet_env\<lparr>random := (\<lambda>i. if i = 77 then 1 / 62 else 0)\<rparr>"
  have v: "validateUrl ?e (originalUrl sample_req)" "\<not> alias_given (customAlias sample_req)"
    by (simp_all add: quiet_env_def sample_req_def alias_given_def)
  have h: "(\<forall>j\<le>11. \<not> select_fails ?e j)
          \<and> (\<forall>j<11. select_by_code (one_row_world sample_row) (generateShortCode (random ?e) (7 * j)) \<noteq> [])
          \<and> select_by_code (one_row_world sample_row) (generateShortCode (random ?e) (7 * 11)) = []"
    by (auto simp: quiet_env_def candidate_before_eleven candidate_after_eleven select_by_code_def
          one_row_world_def sample_row_def)
  have c: "generateShortCode (random ?e) (7 * 11) = ''BAAAAAA''"
    by (simp add: candidate_after_eleven quiet_env_def)
  from generate_loop_first_free [OF v, of 11 "one_row_world sample_row" 1000] h
  have "shorten ?e 1000 sample_req (one_row_world sample_row)
          = Some (store_and_respond ?e 1000 sample_req (generateShortCode (random ?e) (7 * 11))
                    (one_row_world sample_row))"
    by blast
  with v c show ?thesis by simp
qed

section \<open>Resolution\<close>

lemma redirect_miss:
  assumes "getCachedUrl e now code w = None" "\<not> select_fails e 0"
  shows "redirect e now code ctx w =
           (case select_active_by_code w code of
              [] \<Rightarrow> (Error404, w)
            | urlData # rest \<Rightarrow> respond_redirect e now ctx urlData (setCachedUrl e now code urlData w))"
  using assms by (simp add: redirect_def)

lemma redirect_hit:
  assumes "getCachedUrl e now code w = Some urlData"
  shows "redirect e now code ctx w = respond_redirect e now ctx urlData w"
  using assms by (simp add: redirect_def)

lemma getCachedUrl_fails: "cache_get_fails e \<Longrightarrow> getCachedUrl e now code w = None"
  by (simp add: getCachedUrl_def)

lemma getCachedUrl_absent: "cache w code = None \<Longrightarrow> getCachedUrl e now code w = None"
  by (simp add: getCachedUrl_def)

text \<open>
  A row that was cached while active and deactivated in the store afterwards: the
  resolve is served from the cache and redirects.
\<close>

theorem inactive_cached_counterexample:
  "select_by_code
     ((one_row_world (sample_row\<lparr>is_active := False\<rparr>))
        \<lparr>cache := [''AAAAAAA'' \<mapsto> (sample_row, 3600000)]\<rparr>) ''AAAAAAA''
     = [sample_row\<lparr>is_active := False\<rparr>]
   \<and> \<not> is_active (sample_row\<lparr>is_active := False\<rparr>)
   \<and> fst (redirect quiet_env 1000 ''AAAAAAA'' sample_ctx
            ((one_row_world (sample_row\<lparr>is_active := False\<rparr>))
               \<lparr>cache := [''AAAAAAA'' \<mapsto> (sample_row, 3600000)]\<rparr>))
       = Redirect301 ''https://example.com/a''"
  by (simp add: redirect_def getCachedUrl_def respond_redirect_def is_expired_def
        select_by_code_def one_row_world_def sample_row_def quiet_env_def)

text \<open>
  C4 (as amended): for a short code whose record has \<open>is_active\<close> false, a resolve that
  is not served from a cache hit (no live entry for the code, or the cache read fails)
  and whose store query is answered fails with 404 and changes nothing.
\<close>

theorem inactive_not_found_from_store:
  assumes "getCachedUrl e now code w = None"
    and "\<not> select_fails e 0"
    and "\<forall>r\<in>set (urls w). short_code r = code \<longrightarrow> \<not> is_active r"
  shows "redirect e now code ctx w = (Error404, w)"
proof -
  have "select_active_by_code w code = []"
    using assms(3) by (auto simp: select_active_by_code_def filter_empty_conv)
  with assms(1,2) show ?thesis by (simp add: redirect_miss)
qed

theorem inactive_not_found_from_store_witness:
  "getCachedUrl quiet_env 1000 ''AAAAAAA'' (one_row_world (sample_row\<lparr>is_active := False\<rparr>)) = None
   \<and> \<not> select_fails quiet_env 0
   \<and> select_by_code (one_row_world (sample_row\<lparr>is_active := False\<rparr>)) ''AAAAAAA''
       = [sample_row\<lparr>is_active := False\<rparr>]
   \<and> redirect quiet_env 1000 ''AAAAAAA'' sample_ctx (one_row_world (sample_row\<lparr>is_active := False\<rparr>))
       = (Error404, one_row_world (sample_row\<lparr>is_active := False\<rparr>))"
  using inactive_not_found_from_store
          [of quiet_env 1000 "''AAAAAAA''" "one_row_world (sample_row\<lparr>is_active := False\<rparr>)" sample_ctx]
  by (simp add: getCachedUrl_def one_row_world_def quiet_env_def select_by_code_def sample_row_def)

lemma getCachedUrl_Some:
  "getCachedUrl e now code w = Some c \<Longrightarrow> \<exists>dies. cache w code = Some (c, dies)"
  by (auto simp: getCachedUrl_def split: if_splits option.splits)

lemma setCachedUrl_tables:
  "(setCachedUrl e now code r w)\<lparr>cache := cache w\<rparr> = w"
  "dom (cache w) \<subseteq> dom (cache (setCachedUrl e now code r w))"
  by (auto simp: setCachedUrl_def)

text \<open>
  C7: a resolve of a short code whose stored, active record has \<open>expires_at\<close> earlier
  than the current time answers 410, and leaves both tables and their sequences as they
  were; no cache entry disappears (on a miss the expired record is even written into the
  cache before the check). The store query is answered, and a cached copy of the record
  carries the record's \<open>expires_at\<close>.
\<close>

theorem expired_resolve_gone:
  assumes "\<not> select_fails e 0"
    and "select_active_by_code w code = r # rest"
    and "expires_at r = Some t" and "t < now"
    and "\<forall>c dies. cache w code = Some (c, dies) \<longrightarrow> expires_at c = expires_at r"
  shows "fst (redirect e now code ctx w) = Error410
       \<and> status (fst (redirect e now code ctx w)) = 410
       \<and> (snd (redirect e now code ctx w))\<lparr>cache := cache w\<rparr> = w
       \<and> dom (cache w) \<subseteq> dom (cache (snd (redirect e now code ctx w)))"
proof (cases "getCachedUrl e now code w")
  case None
  have "is_expired now r" using assms(3,4) by (simp add: is_expired_def)
  then have "redirect e now code ctx w = (Error410, setCachedUrl e now code r w)"
    using None assms(1,2) by (simp add: redirect_miss respond_redirect_def)
  then show ?thesis by (simp add: setCachedUrl_tables)
next
  case (Some c)
  then obtain dies where "cache w code = Some (c, dies)"
    using getCachedUrl_Some by blast
  with assms(3,4,5) have "is_expired now c" by (simp add: is_expired_def)
  then have "redirect e now code ctx w = (Error410, w)"
    using Some by (simp add: redirect_hit respond_redirect_def)
  then show ?thesis by simp
qed

theorem expired_resolve_gone_witness:
  "\<not> select_fails quiet_env 0
   \<and> select_active_by_code (one_row_world (sample_row\<lparr>expires_at := Some 500\<rparr>)) ''AAAAAAA''
       = [sample_row\<lparr>expires_at := Some 500\<rparr>]
   \<and> (500::int) < 1000
   \<and> cache (one_row_world (sample_row\<lparr>expires_at := Some 500\<rparr>)) ''AAAAAAA'' = None
   \<and> fst (redirect quiet_env 1000 ''AAAAAAA'' sample_ctx
            (one_row_world (sample_row\<lparr>expires_at := Some 500\<rparr>))) = Error410
   \<and> urls (snd (redirect quiet_env 1000 ''AAAAAAA'' sample_ctx
                   (one_row_world (sample_row\<lparr>expires_at := Some 500\<rparr>))))
       = [sample_row\<lparr>expires_at := Some 500\<rparr>]"
proof -
  let ?w = "one_row_world (sample_row\<lparr>expires_at := Some 500\<rparr>)"
  have h: "\<not> select_fails quiet_env 0"
    "select_active_by_code ?w ''AAAAAAA'' = [sample_row\<lparr>expires_at := Some 500\<rparr>]"
    "expires_at (sample_row\<lparr>expires_at := Some 500\<rparr>) = Some 500" "(500::int) < 1000"
    "cache ?w ''AAAAAAA'' = None"
    by (simp_all add: quiet_env_def select_active_by_code_def one_row_world_def sample_row_def)
  have "\<forall>c dies. cache ?w ''AAAAAAA'' = Some (c, dies)
          \<longrightarrow> expires_at c = expires_at (sample_row\<lparr>expires_at := Some 500\<rparr>)"
    using h(5) by simp
  from expired_resolve_gone [OF h(1,2,3,4) this, of sample_ctx]
  have "fst (redirect quiet_env 1000 ''AAAAAAA'' sample_ctx ?w) = Error410"
    and "(snd (redirect quiet_env 1000 ''AAAAAAA'' sample_ctx ?w))\<lparr>cache := cache ?w\<rparr> = ?w"
    by simp_all
  moreover from this(2)
  have "urls ((snd (redirect quiet_env 1000 ''AAAAAAA'' sample_ctx ?w))\<lparr>cache := cache ?w\<rparr>) = urls ?w"
    by simp
  then have "urls (snd (redirect quiet_env 1000 ''AAAAAAA'' sample_ctx ?w))
       = [sample_row\<lparr>expires_at := Some 500\<rparr>]"
    by (simp add: one_row_world_def)
  ultimately show ?thesis using h by simp
qed

text \<open>
  C8: when the cache read fails, or finds nothing, the handler queries the store, and a
  failing cache write changes nothing of the answer: if the store holds an active,
  unexpired record for the code, the resolve redirects to its original URL, whatever the
  cache operations do.
\<close>

theorem cache_failure_falls_back:
  assumes "cache_get_fails e \<or> cache w code = None"
    and "\<not> select_fails e 0"
    and "select_active_by_code w code = r # rest"
    and "\<not> is_expired now r"
  shows "fst (redirect e now code ctx w) = Redirect301 (original_url r)"
proof -
  have "getCachedUrl e now code w = None"
    using assms(1) by (auto simp: getCachedUrl_fails getCachedUrl_absent)
  with assms(2,3,4) show ?thesis
    by (simp add: redirect_miss respond_redirect_def)
qed

theorem cache_failure_falls_back_witness:
  "cache_get_fails (quiet_env\<lparr>cache_get_fails := True, cache_set_fails := True\<rparr>)
   \<and> cache_set_fails (quiet_env\<lparr>cache_get_fails := True, cache_set_fails := True\<rparr>)
   \<and> \<not> select_fails (quiet_env\<lparr>cache_get_fails := True, cache_set_fails := True\<rparr>) 0
   \<and> select_active_by_code (one_row_world sample_row) ''AAAAAAA'' = [sample_row]
   \<and> \<not> is_expired 1000 sample_row
   \<and> fst (redirect (quiet_env\<lparr>cache_get_fails := True, cache_set_fails := True\<rparr>) 1000 ''AAAAAAA''
            sample_ctx (one_row_world sample_row))
       = Redirect301 ''https://example.com/a''"
  using cache_failure_falls_back
          [of "quiet_env\<lparr>cache_get_fails := True, cache_set_fails := True\<rparr>"
              "one_row_world sample_row" "''AAAAAAA''" sample_row "[]" 1000 sample_ctx]
  by (simp add: quiet_env_def select_active_by_code_def one_row_world_def sample_row_def
        is_expired_def)

section \<open>The click recorder\<close>

lemma click_recorder_urls:
  "urls (click_recorder e now u ctx w) = urls w
   \<or> urls (click_recorder e now u ctx w) = map (click_row (row_id u)) (urls w)"
  by (auto simp: click_recorder_def update_click_count_def insert_analytics_def
      split: sum.splits if_splits)

lemma fst_respond_redirect:
  "fst (respond_redirect e now ctx u w) = (if is_expired now u then Error410 else Redirect301 (original_url u))"
  by (simp add: respond_redirect_def)

lemma fst_redirect_faults:
  "fst (redirect (e\<lparr>update_fails := a, analytics_fails := b\<rparr>) now code ctx w)
     = fst (redirect e now code ctx w)"
  by (simp add: redirect_def getCachedUrl_def setCachedUrl_def fst_respond_redirect
      split: option.splits list.splits)

text \<open>
  The counter update fails and the append, which would have gone through, is not made:
  the redirect is answered and \<open>analytics\<close> stays empty, where the same request without
  the failure appends one event.
\<close>

theorem click_update_failure_counterexample:
  "fst (redirect (quiet_env\<lparr>update_fails := True\<rparr>) 1000 ''AAAAAAA'' sample_ctx (one_row_world sample_row))
     = Redirect301 ''https://example.com/a''
   \<and> \<not> analytics_fails (quiet_env\<lparr>update_fails := True\<rparr>)
   \<and> analytics (snd (redirect (quiet_env\<lparr>update_fails := True\<rparr>) 1000 ''AAAAAAA'' sample_ctx
                        (one_row_world sample_row))) = []
   \<and> length (analytics (snd (redirect quiet_env 1000 ''AAAAAAA'' sample_ctx
                                (one_row_world sample_row)))) = 1"
  by (simp add: redirect_def getCachedUrl_def setCachedUrl_def respond_redirect_def is_expired_def
        click_recorder_def update_click_count_def click_row_def insert_analytics_def
        select_active_by_code_def one_row_world_def sample_row_def quiet_env_def)

text \<open>
  C5 (as amended): the recorder's failures are swallowed and never reach the redirect
  response, which is the same whatever the two statements do; a failure of the event
  append leaves the counter update in place; a failure of the counter update skips the
  event append, the two statements being awaited in sequence inside one \<^verbatim>\<open>try\<close>.
\<close>

theorem click_recorder_best_effort:
  "fst (redirect (e\<lparr>update_fails := a, analytics_fails := b\<rparr>) now code ctx w)
     = fst (redirect e now code ctx w)
   \<and> urls (click_recorder (e\<lparr>analytics_fails := b\<rparr>) now u ctx w) = urls (click_recorder e now u ctx w)
   \<and> (update_fails e \<longrightarrow> click_recorder e now u ctx w = w)"
proof (intro conjI impI)
  show "fst (redirect (e\<lparr>update_fails := a, analytics_fails := b\<rparr>) now code ctx w)
     = fst (redirect e now code ctx w)"
    by (rule fst_redirect_faults)
  show "urls (click_recorder (e\<lparr>analytics_fails := b\<rparr>) now u ctx w) = urls (click_recorder e now u ctx w)"
    by (auto simp: click_recorder_def insert_analytics_def split: sum.splits)
  show "click_recorder e now u ctx w = w" if "update_fails e"
    using that by (simp add: click_recorder_def)
qed

theorem click_recorder_best_effort_witness:
  "update_fails (quiet_env\<lparr>update_fails := True\<rparr>)
   \<and> click_recorder (quiet_env\<lparr>update_fails := True\<rparr>) 1000 sample_row sample_ctx (one_row_world sample_row)
       = one_row_world sample_row
   \<and> fst (redirect (quiet_env\<lparr>update_fails := True, analytics_fails := True\<rparr>) 1000 ''AAAAAAA'' sample_ctx
            (one_row_world sample_row))
       = fst (redirect quiet_env 1000 ''AAAAAAA'' sample_ctx (one_row_world sample_row))"
  using click_recorder_best_effort
          [where e = "quiet_env\<lparr>update_fails := True\<rparr>" and u = sample_row and now = 1000
             and ctx = sample_ctx and w = "one_row_world sample_row"]
        click_recorder_best_effort
          [where e = quiet_env and a = True and b = True and now = 1000 and code = "''AAAAAAA''"
             and ctx = sample_ctx and w = "one_row_world sample_row"]
  by (simp add: quiet_env_def)

section \<open>What the handlers do to the rows\<close>

lemma generate_unique_free:
  assumes "generate_unique e w k = Some (Inr c)"
  shows "select_by_code w c = []"
  using assms
  by (rule generate_unique.raw_induct
        [where P = "\<lambda>e w k y. \<forall>c. y = Inr c \<longrightarrow> select_by_code w c = []", rotated, rule_format])
     (auto split: if_splits)

lemma store_and_respond_cases:
  "store_and_respond e now req code w = (Error500, w)
   \<or> (\<exists>sc ca ex. pg_varchar 20 code = Some sc \<and> select_by_code w sc = []
        \<and> pg_timestamp (compute_expiresAt now (expiresIn req)) = Some ex
        \<and> store_and_respond e now req code w
            = (Created (base_url e @ ''/'' @ code) code (originalUrl req)
                 (compute_expiresAt now (expiresIn req)) now,
               setCachedUrl e now code
                 (new_row now (userId req) (originalUrl req) sc ca ex w)
                 (w\<lparr>urls := urls w @ [new_row now (userId req) (originalUrl req) sc ca ex w],
                    urls_id_seq := Suc (urls_id_seq w)\<rparr>)))"
  by (auto simp: store_and_respond_def insert_url_def select_by_code_def new_row_def
      split: option.splits sum.splits)

lemma shorten_cases:
  assumes "shorten e now req w = Some (resp, w')"
  shows "(w' = w \<and> (resp = Error500 \<or> (\<exists>m. resp = Error400 m)))
       \<or> (\<exists>code. select_by_code w code = [] \<and> store_and_respond e now req code w = (resp, w'))"
  using assms
  by (auto simp: shorten_def split: if_splits option.splits sum.splits dest: generate_unique_free)

lemma urls_setCachedUrl: "urls (setCachedUrl e now code r w) = urls w"
  by (simp add: setCachedUrl_def)

lemma shorten_urls:
  assumes "shorten e now req w = Some (resp, w')"
  shows "urls w' = urls w \<or> (\<exists>sc ca ex. urls w' = urls w @ [new_row now (userId req) (originalUrl req) sc ca ex w])"
proof -
  from shorten_cases[OF assms] show ?thesis
  proof (elim disjE exE conjE)
    fix code assume sr: "store_and_respond e now req code w = (resp, w')"
    from store_and_respond_cases[of e now req code w] show ?thesis
    proof (elim disjE exE conjE)
      assume "store_and_respond e now req code w = (Error500, w)"
      with sr show ?thesis by simp
    next
      fix sc ca ex
      assume "store_and_respond e now req code w
            = (Created (base_url e @ ''/'' @ code) code (originalUrl req)
                 (compute_expiresAt now (expiresIn req)) now,
               setCachedUrl e now code
                 (new_row now (userId req) (originalUrl req) sc ca ex w)
                 (w\<lparr>urls := urls w @ [new_row now (userId req) (originalUrl req) sc ca ex w],
                    urls_id_seq := Suc (urls_id_seq w)\<rparr>))"
      with sr have "urls w' = urls w @ [new_row now (userId req) (originalUrl req) sc ca ex w]"
        by (auto simp: urls_setCachedUrl)
      then show ?thesis by blast
    qed
  qed simp_all
qed

lemma respond_redirect_urls:
  "urls (snd (respond_redirect e now ctx u w)) = urls w
   \<or> urls (snd (respond_redirect e now ctx u w)) = map (click_row (row_id u)) (urls w)"
  using click_recorder_urls[of e now u ctx w] by (auto simp: respond_redirect_def)

lemma redirect_urls:
  "urls (snd (redirect e now code ctx w)) = urls w
   \<or> (\<exists>rid. urls (snd (redirect e now code ctx w)) = map (click_row rid) (urls w))"
proof (cases "getCachedUrl e now code w")
  case None
  show ?thesis
  proof (cases "select_fails e 0")
    case True
    with None show ?thesis by (simp add: redirect_def)
  next
    case False
    show ?thesis
    proof (cases "select_active_by_code w code")
      case Nil
      with None False show ?thesis by (simp add: redirect_def)
    next
      case (Cons u rest)
      with None False have "redirect e now code ctx w
          = respond_redirect e now ctx u (setCachedUrl e now code u w)"
        by (simp add: redirect_def)
      with respond_redirect_urls[of e now ctx u "setCachedUrl e now code u w"]
      have "urls (snd (redirect e now code ctx w)) = urls w
            \<or> urls (snd (redirect e now code ctx w)) = map (click_row (row_id u)) (urls w)"
        by (simp add: urls_setCachedUrl)
      then show ?thesis by blast
    qed
  qed
next
  case (Some u)
  then have "redirect e now code ctx w = respond_redirect e now ctx u w"
    by (simp add: redirect_def)
  with respond_redirect_urls[of e now ctx u w]
  have "urls (snd (redirect e now code ctx w)) = urls w
        \<or> urls (snd (redirect e now code ctx w)) = map (click_row (row_id u)) (urls w)"
    by simp
  then show ?thesis by blast
qed

lemma click_row_cases:
  "click_row rid r = r \<or> click_row rid r = r\<lparr>click_count := click_count r + 1\<rparr>"
  by (simp add: click_row_def)

text \<open>
  C9: no core operation lowers a record's \<open>click_count\<close>. The shortening handler leaves
  the rows it finds as they are and the row it adds starts at 0; the redirect handler
  keeps every row in its place, either unchanged or with \<open>click_count\<close> one higher and
  nothing else changed; and a click recording whose update succeeds raises the count of
  the recorded row by exactly 1 and leaves the other rows alone.
\<close>

theorem click_count_monotone:
  "(shorten e now req w = Some (resp, w') \<longrightarrow>
      (\<exists>new. urls w' = urls w @ new \<and> (\<forall>r\<in>set new. click_count r = 0)))
   \<and> length (urls (snd (redirect e now code ctx w))) = length (urls w)
   \<and> (\<forall>i<length (urls w).
         urls (snd (redirect e now code ctx w)) ! i = urls w ! i
         \<or> urls (snd (redirect e now code ctx w)) ! i
              = (urls w ! i)\<lparr>click_count := click_count (urls w ! i) + 1\<rparr>)
   \<and> (\<forall>i<length (urls w).
         click_count (urls w ! i) \<le> click_count (urls (snd (redirect e now code ctx w)) ! i))
   \<and> (\<not> update_fails e \<and> (\<forall>r\<in>set (urls w). row_id r = row_id u \<longrightarrow> click_count r < 2147483647) \<longrightarrow>
        urls (click_recorder e now u ctx w)
          = map (\<lambda>r. if row_id r = row_id u then r\<lparr>click_count := click_count r + 1\<rparr> else r) (urls w))"
proof (intro conjI impI)
  assume "shorten e now req w = Some (resp, w')"
  from shorten_urls[OF this]
  show "\<exists>new. urls w' = urls w @ new \<and> (\<forall>r\<in>set new. click_count r = 0)"
  proof (elim disjE exE)
    assume "urls w' = urls w"
    then have "urls w' = urls w @ [] \<and> (\<forall>r\<in>set []. click_count r = 0)" by simp
    then show ?thesis by blast
  next
    fix sc ca ex
    assume "urls w' = urls w @ [new_row now (userId req) (originalUrl req) sc ca ex w]"
    then have "urls w' = urls w @ [new_row now (userId req) (originalUrl req) sc ca ex w]
        \<and> (\<forall>r\<in>set [new_row now (userId req) (originalUrl req) sc ca ex w]. click_count r = 0)"
      by (simp add: new_row_def)
    then show ?thesis by blast
  qed
next
  show len: "length (urls (snd (redirect e now code ctx w))) = length (urls w)"
    using redirect_urls[of e now code ctx w] by (elim disjE exE) simp_all
next
  show step: "\<forall>i<length (urls w).
         urls (snd (redirect e now code ctx w)) ! i = urls w ! i
         \<or> urls (snd (redirect e now code ctx w)) ! i
              = (urls w ! i)\<lparr>click_count := click_count (urls w ! i) + 1\<rparr>"
    using redirect_urls[of e now code ctx w] click_row_cases
    by (elim disjE exE) simp_all
next
  show "\<forall>i<length (urls w).
         click_count (urls w ! i) \<le> click_count (urls (snd (redirect e now code ctx w)) ! i)"
  proof (intro allI impI)
    fix i assume "i < length (urls w)"
    with redirect_urls[of e now code ctx w] click_row_cases
    have "urls (snd (redirect e now code ctx w)) ! i = urls w ! i
         \<or> urls (snd (redirect e now code ctx w)) ! i
              = (urls w ! i)\<lparr>click_count := click_count (urls w ! i) + 1\<rparr>"
      by (elim disjE exE) simp_all
    then show "click_count (urls w ! i) \<le> click_count (urls (snd (redirect e now code ctx w)) ! i)"
      by (elim disjE) simp_all
  qed
next
  assume a: "\<not> update_fails e \<and> (\<forall>r\<in>set (urls w). row_id r = row_id u \<longrightarrow> click_count r < 2147483647)"
  then have "filter (\<lambda>r. row_id r = row_id u \<and> 2147483647 < click_count r + 1) (urls w) = []"
    by (auto simp: filter_empty_conv)
  with a show "urls (click_recorder e now u ctx w)
          = map (\<lambda>r. if row_id r = row_id u then r\<lparr>click_count := click_count r + 1\<rparr> else r) (urls w)"
    by (auto simp: click_recorder_def update_click_count_def click_row_def insert_analytics_def
        split: sum.splits)
qed


theorem click_count_monotone_witness:
  "\<not> update_fails quiet_env
   \<and> click_count sample_row < 2147483647
   \<and> urls (click_recorder quiet_env 1000 sample_row sample_ctx (one_row_world sample_row))
       = [sample_row\<lparr>click_count := 1\<rparr>]
   \<and> length (urls (snd (redirect quiet_env 1000 ''AAAAAAA'' sample_ctx (one_row_world sample_row)))) = 1
   \<and> click_count sample_row
       \<le> click_count (urls (snd (redirect quiet_env 1000 ''AAAAAAA'' sample_ctx (one_row_world sample_row))) ! 0)"
  using click_count_monotone
          [where e = quiet_env and now = 1000 and u = sample_row and ctx = sample_ctx
             and w = "one_row_world sample_row" and code = "''AAAAAAA''"]
  by (simp add: quiet_env_def one_row_world_def sample_row_def)

section \<open>Custom aliases\<close>




lemma store_and_respond_refused:
  assumes "pg_timestamp (compute_expiresAt now (expiresIn req)) = None"
  shows "store_and_respond e now req code w = (Error500, w)"
  using insert_url_refused[OF assms, of now "userId req" "originalUrl req" code "customAlias req" w]
  by (auto simp: store_and_respond_def)




section \<open>Two requests for one alias\<close>

lemma alias_steps_sequential:
  assumes "alias_given (customAlias req)"
  shows "\<exists>r w'. shorten e now req w = Some (r, w')
              \<and> interleave e req eB reqB now [True, True] (Ready, tB, w) = (Done r, tB, w')"
  using assms by (auto simp: shorten_def split: prod.splits)

section \<open>Invariants of the handlers\<close>

lemma pg_varchar_length: "pg_varchar n s = Some sc \<Longrightarrow> length sc \<le> n"
  by (auto simp: pg_varchar_def split: if_splits)

lemma pg_varchar_same: "pg_varchar n s = Some sc \<Longrightarrow> length s \<le> n \<Longrightarrow> sc = s"
  by (auto simp: pg_varchar_def split: if_splits)

lemma shorten_outcome:
  assumes "shorten e now req w = Some (resp, w')"
  shows "(w' = w \<and> (resp = Error500 \<or> (\<exists>m. resp = Error400 m)))
       \<or> (\<exists>code sc row.
            select_by_code w code = [] \<and> pg_varchar 20 code = Some sc \<and> select_by_code w sc = []
            \<and> short_code row = sc
            \<and> pg_timestamp (compute_expiresAt now (expiresIn req)) = Some (expires_at row)
            \<and> resp = Created (base_url e @ ''/'' @ code) code (originalUrl req)
                       (compute_expiresAt now (expiresIn req)) now
            \<and> w' = setCachedUrl e now code row
                      (w\<lparr>urls := urls w @ [row], urls_id_seq := Suc (urls_id_seq w)\<rparr>))"
proof -
  from shorten_cases[OF assms] show ?thesis
  proof (elim disjE exE conjE)
    fix code
    assume free: "select_by_code w code = []"
      and sr: "store_and_respond e now req code w = (resp, w')"
    from store_and_respond_cases[of e now req code w] show ?thesis
    proof (elim disjE exE conjE)
      assume "store_and_respond e now req code w = (Error500, w)"
      with sr show ?thesis by simp
    next
      fix sc ca ex
      let ?row = "new_row now (userId req) (originalUrl req) sc ca ex w"
      assume vc: "pg_varchar 20 code = Some sc" and free': "select_by_code w sc = []"
        and ts: "pg_timestamp (compute_expiresAt now (expiresIn req)) = Some ex"
        and "store_and_respond e now req code w
            = (Created (base_url e @ ''/'' @ code) code (originalUrl req)
                 (compute_expiresAt now (expiresIn req)) now,
               setCachedUrl e now code ?row
                 (w\<lparr>urls := urls w @ [?row], urls_id_seq := Suc (urls_id_seq w)\<rparr>))"
      with sr have "resp = Created (base_url e @ ''/'' @ code) code (originalUrl req)
                       (compute_expiresAt now (expiresIn req)) now"
        and "w' = setCachedUrl e now code ?row
                      (w\<lparr>urls := urls w @ [?row], urls_id_seq := Suc (urls_id_seq w)\<rparr>)"
        by simp_all
      moreover have "short_code ?row = sc"
        "pg_timestamp (compute_expiresAt now (expiresIn req)) = Some (expires_at ?row)"
        using ts by (simp_all add: new_row_def)
      ultimately show ?thesis using free vc free' by blast
    qed
  qed simp_all
qed

lemma shorten_world:
  assumes "shorten e now req w = Some (resp, w')"
  shows "w' = w
       \<or> (\<exists>code sc row.
            select_by_code w code = [] \<and> pg_varchar 20 code = Some sc \<and> select_by_code w sc = []
            \<and> short_code row = sc
            \<and> pg_timestamp (compute_expiresAt now (expiresIn req)) = Some (expires_at row)
            \<and> resp = Created (base_url e @ ''/'' @ code) code (originalUrl req)
                       (compute_expiresAt now (expiresIn req)) now
            \<and> w' = setCachedUrl e now code row
                      (w\<lparr>urls := urls w @ [row], urls_id_seq := Suc (urls_id_seq w)\<rparr>))"
  using shorten_outcome[OF assms] by blast

lemma cache_click_recorder: "cache (click_recorder e now u ctx w) = cache w"
  by (auto simp: click_recorder_def update_click_count_def insert_analytics_def split: sum.splits)

lemma cache_respond_redirect: "cache (snd (respond_redirect e now ctx u w)) = cache w"
  by (simp add: respond_redirect_def cache_click_recorder)

lemma redirect_cache:
  "cache (snd (redirect e now code ctx w)) = cache w
   \<or> (\<exists>u. u \<in> set (urls w) \<and> short_code u = code
          \<and> cache (snd (redirect e now code ctx w)) = (cache w)(code \<mapsto> (u, now + 3600 * 1000)))"
proof (cases "getCachedUrl e now code w")
  case None
  show ?thesis
  proof (cases "select_fails e 0")
    case True
    with None show ?thesis by (simp add: redirect_def)
  next
    case False
    show ?thesis
    proof (cases "select_active_by_code w code")
      case Nil
      with None False show ?thesis by (simp add: redirect_def)
    next
      case (Cons u rest)
      then have "u \<in> set (select_active_by_code w code)" by simp
      then have u: "u \<in> set (urls w)" "short_code u = code"
        by (simp_all add: select_active_by_code_def)
      from None False Cons have "redirect e now code ctx w
          = respond_redirect e now ctx u (setCachedUrl e now code u w)"
        by (simp add: redirect_def)
      then have "cache (snd (redirect e now code ctx w)) = cache (setCachedUrl e now code u w)"
        by (simp add: cache_respond_redirect)
      then have "cache (snd (redirect e now code ctx w)) = cache w
          \<or> cache (snd (redirect e now code ctx w)) = (cache w)(code \<mapsto> (u, now + 3600 * 1000))"
        by (simp add: setCachedUrl_def)
      with u show ?thesis by blast
    qed
  qed
next
  case (Some u)
  then show ?thesis by (simp add: redirect_def cache_respond_redirect)
qed

lemma click_row_keeps: "short_code (click_row rid r) = short_code r"
  "expires_at (click_row rid r) = expires_at r"
  by (simp_all add: click_row_def)

lemma select_by_code_map_click:
  "select_by_code (w\<lparr>urls := map (click_row rid) (urls w)\<rparr>) c = map (click_row rid) (select_by_code w c)"
  by (simp add: select_by_code_def filter_map comp_def click_row_keeps)

lemma redirect_select_nonempty:
  assumes "select_by_code w c \<noteq> []"
  shows "select_by_code (snd (redirect e now code ctx w)) c \<noteq> []"
proof -
  have "select_by_code (snd (redirect e now code ctx w)) c
          = filter (\<lambda>r. short_code r = c) (urls (snd (redirect e now code ctx w)))"
    by (simp add: select_by_code_def)
  moreover from redirect_urls[of e now code ctx w]
  have "filter (\<lambda>r. short_code r = c) (urls (snd (redirect e now code ctx w))) \<noteq> []"
  proof (elim disjE exE)
    assume "urls (snd (redirect e now code ctx w)) = urls w"
    with assms show ?thesis by (simp add: select_by_code_def)
  next
    fix rid
    assume "urls (snd (redirect e now code ctx w)) = map (click_row rid) (urls w)"
    with assms show ?thesis
      by (simp add: select_by_code_def filter_map comp_def click_row_keeps)
  qed
  ultimately show ?thesis by simp
qed

lemma redirect_rows_unexpiring:
  assumes "\<forall>r\<in>set (urls w). short_code r = c \<longrightarrow> expires_at r = None"
  shows "\<forall>r\<in>set (urls (snd (redirect e now code ctx w))). short_code r = c \<longrightarrow> expires_at r = None"
  using redirect_urls[of e now code ctx w] assms
  by (elim disjE exE) (auto simp: click_row_keeps)

lemma select_by_code_append:
  "select_by_code (setCachedUrl e now code row (w\<lparr>urls := urls w @ [row], urls_id_seq := n\<rparr>)) c
     = select_by_code w c @ (if short_code row = c then [row] else [])"
  by (simp add: select_by_code_def urls_setCachedUrl)

lemma cache_after_store:
  "cache (setCachedUrl e now code row (w\<lparr>urls := urls w @ [row], urls_id_seq := n\<rparr>)) c
     = (if \<not> cache_set_fails e \<and> c = code then Some (row, now + 3600 * 1000) else cache w c)"
  by (simp add: setCachedUrl_def)

lemma cache_backed_empty: "cache_backed empty_world"
  by (simp add: cache_backed_def empty_world_def)

lemma cache_backed_shorten:
  assumes "shorten e now req w = Some (resp, w')" "cache_backed w"
  shows "cache_backed w'"
proof -
  from shorten_world[OF assms(1)] show ?thesis
  proof (elim disjE exE conjE)
    assume "w' = w"
    with assms(2) show ?thesis by simp
  next
    fix code sc row
    assume vc: "pg_varchar 20 code = Some sc" and sc: "short_code row = sc"
      and w': "w' = setCachedUrl e now code row
                      (w\<lparr>urls := urls w @ [row], urls_id_seq := Suc (urls_id_seq w)\<rparr>)"
    show ?thesis
      unfolding cache_backed_def
    proof (intro allI impI)
      fix c assume c: "cache w' c \<noteq> None"
      show "select_by_code w' c \<noteq> [] \<or> (\<exists>sc. pg_varchar 20 c = Some sc \<and> select_by_code w' sc \<noteq> [])"
      proof (cases "\<not> cache_set_fails e \<and> c = code")
        case True
        then have "pg_varchar 20 c = Some sc \<and> select_by_code w' sc \<noteq> []"
          using vc sc unfolding w' by (simp add: select_by_code_append)
        then show ?thesis by blast
      next
        case False
        with c have "cache w c \<noteq> None" unfolding w' by (simp add: cache_after_store)
        with assms(2) have "select_by_code w c \<noteq> []
            \<or> (\<exists>sc. pg_varchar 20 c = Some sc \<and> select_by_code w sc \<noteq> [])"
          unfolding cache_backed_def by blast
        then show ?thesis unfolding w' by (auto simp: select_by_code_append)
      qed
    qed
  qed
qed

lemma cache_backed_redirect:
  assumes "cache_backed w"
  shows "cache_backed (snd (redirect e now code ctx w))"
  unfolding cache_backed_def
proof (intro allI impI)
  let ?w' = "snd (redirect e now code ctx w)"
  fix c assume c: "cache ?w' c \<noteq> None"
  have "select_by_code w c \<noteq> [] \<or> (\<exists>sc. pg_varchar 20 c = Some sc \<and> select_by_code w sc \<noteq> [])"
    using redirect_cache[of e now code ctx w]
  proof (elim disjE exE conjE)
    assume "cache ?w' = cache w"
    with c assms show ?thesis unfolding cache_backed_def by simp
  next
    fix u assume u: "u \<in> set (urls w)" "short_code u = code"
      and cw: "cache ?w' = (cache w)(code \<mapsto> (u, now + 3600 * 1000))"
    show ?thesis
    proof (cases "c = code")
      case True
      with u have "select_by_code w c \<noteq> []"
        by (auto simp: select_by_code_def filter_empty_conv)
      then show ?thesis by simp
    next
      case False
      with c cw have "cache w c \<noteq> None" by simp
      with assms show ?thesis unfolding cache_backed_def by blast
    qed
  qed
  then show "select_by_code ?w' c \<noteq> [] \<or> (\<exists>sc. pg_varchar 20 c = Some sc \<and> select_by_code ?w' sc \<noteq> [])"
    using redirect_select_nonempty by blast
qed

lemma cache_backed_later:
  assumes "later w w'" "cache_backed w"
  shows "cache_backed w'"
  using assms
proof (induction rule: later.induct)
  case (later_refl w)
  then show ?case .
next
  case (later_shorten w w1 e now req r w2)
  then show ?case using cache_backed_shorten by blast
next
  case (later_redirect w w1 e now code ctx r w2)
  then have "cache_backed (snd (redirect e now code ctx w1))"
    by (intro cache_backed_redirect) simp
  with later_redirect show ?case by simp
qed

section \<open>Expiry of a new record\<close>

lemma respond_redirect_live:
  "expires_at u = None \<Longrightarrow> fst (respond_redirect e now ctx u w) = Redirect301 (original_url u)"
  by (simp add: respond_redirect_def is_expired_def)

lemma unexpiring_redirect_answer:
  assumes "unexpiring code w"
  shows "fst (redirect e now code ctx w) \<noteq> Error410"
proof (cases "getCachedUrl e now code w")
  case (Some c)
  then obtain dies where "cache w code = Some (c, dies)"
    using getCachedUrl_Some by blast
  with assms have "expires_at c = None" unfolding unexpiring_def by blast
  with Some show ?thesis by (simp add: redirect_hit respond_redirect_live)
next
  case None
  show ?thesis
  proof (cases "select_fails e 0")
    case True
    with None show ?thesis by (simp add: redirect_def)
  next
    case False
    show ?thesis
    proof (cases "select_active_by_code w code")
      case Nil
      with None False show ?thesis by (simp add: redirect_miss)
    next
      case (Cons u rest)
      then have "u \<in> set (select_active_by_code w code)" by simp
      then have "u \<in> set (urls w)" "short_code u = code"
        by (simp_all add: select_active_by_code_def)
      with assms have "expires_at u = None" unfolding unexpiring_def by blast
      with None False Cons show ?thesis by (simp add: redirect_miss respond_redirect_live)
    qed
  qed
qed

lemma unexpiring_shorten:
  assumes "shorten e now req w = Some (resp, w')" "unexpiring code w"
  shows "unexpiring code w'"
proof -
  from assms(2) obtain sc where
    vc: "pg_varchar 20 code = Some sc" and held: "select_by_code w sc \<noteq> []"
    and rows: "\<forall>r\<in>set (urls w). short_code r = code \<longrightarrow> expires_at r = None"
    and cached: "\<forall>c dies. cache w code = Some (c, dies) \<longrightarrow> expires_at c = None"
    unfolding unexpiring_def by blast
  from shorten_world[OF assms(1)] show ?thesis
  proof (elim disjE exE conjE)
    assume "w' = w"
    with assms(2) show ?thesis by simp
  next
    fix code2 sc2 row
    assume vc2: "pg_varchar 20 code2 = Some sc2" and free2: "select_by_code w sc2 = []"
      and sc2: "short_code row = sc2"
      and w': "w' = setCachedUrl e now code2 row
                      (w\<lparr>urls := urls w @ [row], urls_id_seq := Suc (urls_id_seq w)\<rparr>)"
    have ne: "sc2 \<noteq> sc" using held free2 by auto
    have other: "sc2 \<noteq> code"
    proof
      assume eq: "sc2 = code"
      then have "length code \<le> 20" using pg_varchar_length[OF vc2] by simp
      then have "sc = code" using pg_varchar_same[OF vc] by simp
      with eq ne show False by simp
    qed
    have key: "code2 \<noteq> code" using vc vc2 ne by auto
    have 1: "select_by_code w' sc \<noteq> []"
      using held unfolding w' by (simp add: select_by_code_append)
    have 2: "\<forall>r\<in>set (urls w'). short_code r = code \<longrightarrow> expires_at r = None"
      using rows other sc2 unfolding w' by (auto simp: urls_setCachedUrl)
    have 3: "\<forall>c dies. cache w' code = Some (c, dies) \<longrightarrow> expires_at c = None"
      using cached key unfolding w' by (simp add: cache_after_store)
    from vc 1 2 3 show ?thesis unfolding unexpiring_def by blast
  qed
qed

lemma unexpiring_redirect:
  assumes "unexpiring code w"
  shows "unexpiring code (snd (redirect e now code2 ctx w))"
proof -
  let ?w' = "snd (redirect e now code2 ctx w)"
  from assms obtain sc where
    vc: "pg_varchar 20 code = Some sc" and held: "select_by_code w sc \<noteq> []"
    and rows: "\<forall>r\<in>set (urls w). short_code r = code \<longrightarrow> expires_at r = None"
    and cached: "\<forall>c dies. cache w code = Some (c, dies) \<longrightarrow> expires_at c = None"
    unfolding unexpiring_def by blast
  have 1: "select_by_code ?w' sc \<noteq> []"
    using held by (rule redirect_select_nonempty)
  have 2: "\<forall>r\<in>set (urls ?w'). short_code r = code \<longrightarrow> expires_at r = None"
    using rows by (rule redirect_rows_unexpiring)
  have 3: "\<forall>c dies. cache ?w' code = Some (c, dies) \<longrightarrow> expires_at c = None"
    using redirect_cache[of e now code2 ctx w]
  proof (elim disjE exE conjE)
    assume "cache ?w' = cache w"
    with cached show ?thesis by simp
  next
    fix u assume u: "u \<in> set (urls w)" "short_code u = code2"
      and cw: "cache ?w' = (cache w)(code2 \<mapsto> (u, now + 3600 * 1000))"
    show ?thesis
    proof (cases "code2 = code")
      case True
      with u rows have "expires_at u = None" by blast
      with cw True show ?thesis by simp
    next
      case False
      with cw cached show ?thesis by simp
    qed
  qed
  from vc 1 2 3 show ?thesis unfolding unexpiring_def by blast
qed

lemma unexpiring_later:
  assumes "later w w'" "unexpiring code w"
  shows "unexpiring code w'"
  using assms
proof (induction rule: later.induct)
  case (later_refl w)
  then show ?case .
next
  case (later_shorten w w1 e now req r w2)
  then show ?case using unexpiring_shorten by blast
next
  case (later_redirect w w1 e now code2 ctx r w2)
  then have "unexpiring code (snd (redirect e now code2 ctx w1))"
    by (intro unexpiring_redirect) simp
  with later_redirect show ?case by simp
qed

text \<open>
  C10: a request with \<open>expiresIn\<close> equal to 0 that is answered 201 has stored a record
  without \<open>expires_at\<close> and reports \<open>expiresAt\<close> null; from then on, after any further
  shortening and redirect requests, a resolve of its short code is never answered 410,
  at any time and whatever fails. The cache holds only keys the handlers wrote.
\<close>

theorem zero_expiry_never_expires:
  assumes "expiresIn req = Some 0"
    and "shorten e now req w = Some (Created shortUrl shortCode url expiresAt createdAt, w')"
    and "cache_backed w"
    and "later w' w''"
  shows "expiresAt = None
       \<and> (\<exists>row. urls w' = urls w @ [row] \<and> expires_at row = None)
       \<and> fst (redirect e2 now2 shortCode ctx w'') \<noteq> Error410"
proof -
  have z: "compute_expiresAt now (expiresIn req) = None"
    using assms(1) by (simp add: compute_expiresAt_def)
  from shorten_outcome[OF assms(2)] obtain code sc row where
    free: "select_by_code w code = []" and vc: "pg_varchar 20 code = Some sc"
    and free': "select_by_code w sc = []" and sc: "short_code row = sc"
    and ts: "pg_timestamp None = Some (expires_at row)"
    and resp: "Created shortUrl shortCode url expiresAt createdAt
                 = Created (base_url e @ ''/'' @ code) code (originalUrl req) None now"
    and w': "w' = setCachedUrl e now code row
                   (w\<lparr>urls := urls w @ [row], urls_id_seq := Suc (urls_id_seq w)\<rparr>)"
    unfolding z by blast
  from ts have ex: "expires_at row = None" by (simp add: pg_timestamp_null)
  from resp have c: "shortCode = code" and e: "expiresAt = None" by simp_all
  have "urls w' = urls w @ [row]" unfolding w' by (simp add: urls_setCachedUrl)
  with ex have rows: "\<exists>row. urls w' = urls w @ [row] \<and> expires_at row = None" by blast
  have nocache: "cache w code = None"
    by (rule cache_backed_free[OF assms(3) vc free' free])
  have "unexpiring code w'"
    unfolding unexpiring_def
  proof (intro conjI)
    show "\<exists>sc. pg_varchar 20 code = Some sc \<and> select_by_code w' sc \<noteq> []"
      using vc sc unfolding w' by (simp add: select_by_code_append)
    show "\<forall>r\<in>set (urls w'). short_code r = code \<longrightarrow> expires_at r = None"
      using free ex unfolding w'
      by (auto simp: urls_setCachedUrl select_by_code_def filter_empty_conv)
    show "\<forall>c dies. cache w' code = Some (c, dies) \<longrightarrow> expires_at c = None"
      using nocache ex unfolding w' by (simp add: cache_after_store)
  qed
  with assms(4) have "unexpiring code w''" by (rule unexpiring_later)
  then have "fst (redirect e2 now2 shortCode ctx w'') \<noteq> Error410"
    unfolding c by (rule unexpiring_redirect_answer)
  with e rows show ?thesis by simp
qed


theorem zero_expiry_never_expires_witness:
  "expiresIn (sample_req\<lparr>expiresIn := Some 0\<rparr>) = Some 0
   \<and> cache_backed empty_world
   \<and> map_option fst (shorten quiet_env 1000 (sample_req\<lparr>expiresIn := Some 0\<rparr>) empty_world)
       = Some (Created ''https://linksnap.io/AAAAAAA'' ''AAAAAAA'' ''https://example.com/a'' None 1000)
   \<and> fst (redirect quiet_env 999999999 ''AAAAAAA'' sample_ctx
            (snd (redirect quiet_env 2000 ''AAAAAAA'' sample_ctx
               (snd (the (shorten quiet_env 1000 (sample_req\<lparr>expiresIn := Some 0\<rparr>) empty_world))))))
       \<noteq> Error410"
proof -
  let ?req = "sample_req\<lparr>expiresIn := Some 0\<rparr>"
  have g: "generate_unique quiet_env empty_world 0 = Some (Inr ''AAAAAAA'')"
    by (subst generate_unique.simps)
       (simp add: quiet_env_def candidate_zero select_by_code_def empty_world_def)
  have s: "shorten quiet_env 1000 ?req empty_world
             = Some (store_and_respond quiet_env 1000 ?req ''AAAAAAA'' empty_world)"
  proof -
    have "validateUrl quiet_env (originalUrl ?req)" "\<not> alias_given (customAlias ?req)"
      by (simp_all add: quiet_env_def sample_req_def alias_given_def)
    then show ?thesis by (simp add: shorten_def g)
  qed
  obtain w' where sr: "store_and_respond quiet_env 1000 ?req ''AAAAAAA'' empty_world
      = (Created ''https://linksnap.io/AAAAAAA'' ''AAAAAAA'' ''https://example.com/a'' None 1000, w')"
    by (simp add: store_and_respond_def insert_url_def pg_varchar_def pg_varchar_null_def
          pg_timestamp_def new_row_def compute_expiresAt_def quiet_env_def sample_req_def empty_world_def)
  have h: "expiresIn ?req = Some 0" "cache_backed empty_world"
    by (simp_all add: sample_req_def cache_backed_empty)
  have l: "later w' (snd (redirect quiet_env 2000 ''AAAAAAA'' sample_ctx w'))"
    by (rule later_redirect[OF later_refl, of quiet_env 2000 "''AAAAAAA''" sample_ctx w' 
          "fst (redirect quiet_env 2000 ''AAAAAAA'' sample_ctx w')"]) simp
  from zero_expiry_never_expires [OF h(1) s[unfolded sr] h(2) l, of quiet_env 999999999 sample_ctx]
  have "fst (redirect quiet_env 999999999 ''AAAAAAA'' sample_ctx
            (snd (redirect quiet_env 2000 ''AAAAAAA'' sample_ctx w'))) \<noteq> Error410" by simp
  with h s sr show ?thesis by simp
qed

section \<open>The race for one alias\<close>

lemma store_and_respond_fresh_alias:
  assumes "customAlias req = Some al" "length al \<le> 20" "select_by_code w al = []" "\<not> insert_fails e"
    and "pg_timestamp (compute_expiresAt now (expiresIn req)) = Some ex"
  shows "store_and_respond e now req al w
           = (Created (base_url e @ ''/'' @ al) al (originalUrl req)
                (compute_expiresAt now (expiresIn req)) now,
              setCachedUrl e now al
                (new_row now (userId req) (originalUrl req) al (Some al) ex w)
                (w\<lparr>urls := urls w @ [new_row now (userId req) (originalUrl req) al (Some al) ex w],
                   urls_id_seq := Suc (urls_id_seq w)\<rparr>))"
proof -
  have "pg_varchar_null 50 (customAlias req) = Some (Some al)"
    using assms(1,2) by (simp add: pg_varchar_null_def pg_varchar_def)
  then have "insert_url now (userId req) (originalUrl req) al (customAlias req)
            (compute_expiresAt now (expiresIn req)) w
      = Inr (new_row now (userId req) (originalUrl req) al (Some al) ex w,
             w\<lparr>urls := urls w @ [new_row now (userId req) (originalUrl req) al (Some al) ex w],
                urls_id_seq := Suc (urls_id_seq w)\<rparr>)"
    using assms(2,3,5) by (intro insert_url_fresh pg_varchar_short) simp_all
  with assms(4) show ?thesis by (simp add: store_and_respond_def new_row_def)
qed

lemma store_and_respond_taken:
  assumes "length al \<le> 20" "select_by_code w al \<noteq> []"
  shows "store_and_respond e now req al w = (Error500, w)"
  using assms
  by (auto simp: store_and_respond_def insert_url_def pg_varchar_def select_by_code_def
      split: option.splits)

text \<open>
  C1: two requests carry the same alias, which no record has. When both run their
  existence check before either inserts, the first insert creates the record and the
  second is refused by the \<^verbatim>\<open>UNIQUE\<close> constraint, which the handler's \<^verbatim>\<open>catch\<close>
  answers with 500; when the second request starts after the first has finished, it is
  answered 400 by the existence check. In both runs exactly one record has the alias.
  (This is for a first request whose expiry is null or a date the store accepts. When
  the store refuses that date, the first request is itself answered 500, nothing is
  written, and the second request is served as if it were alone, in either order.)
\<close>

theorem same_alias_race:
  assumes "validateUrl eA (originalUrl reqA)" and "validateUrl eB (originalUrl reqB)"
    and "customAlias reqA = Some al" and "customAlias reqB = Some al"
    and "al \<noteq> []" and "length al \<le> 20"
    and "\<not> select_fails eA 0" and "\<not> select_fails eB 0"
    and "\<not> insert_fails eA" and "\<not> insert_fails eB"
    and "select_by_code w al = []"
  shows "(pg_timestamp (compute_expiresAt now (expiresIn reqA)) \<noteq> None \<longrightarrow>
          (\<exists>w'. interleave eA reqA eB reqB now [True, False, True, False] (Ready, Ready, w)
                 = (Done (Created (base_url eA @ ''/'' @ al) al (originalUrl reqA)
                            (compute_expiresAt now (expiresIn reqA)) now),
                    Done Error500, w')
              \<and> length (select_by_code w' al) = 1)
        \<and> (\<exists>w'. interleave eA reqA eB reqB now [True, True, False, False] (Ready, Ready, w)
                 = (Done (Created (base_url eA @ ''/'' @ al) al (originalUrl reqA)
                            (compute_expiresAt now (expiresIn reqA)) now),
                    Done (Error400 ''Custom alias already taken''), w')
              \<and> length (select_by_code w' al) = 1))
       \<and> (pg_timestamp (compute_expiresAt now (expiresIn reqA)) = None \<longrightarrow>
            interleave eA reqA eB reqB now [True, False, True, False] (Ready, Ready, w)
              = (Done Error500, Done (fst (store_and_respond eB now reqB al w)),
                 snd (store_and_respond eB now reqB al w))
          \<and> interleave eA reqA eB reqB now [True, True, False, False] (Ready, Ready, w)
              = (Done Error500, Done (fst (store_and_respond eB now reqB al w)),
                 snd (store_and_respond eB now reqB al w)))"
proof (intro conjI impI)
  have tA: "alias_text (customAlias reqA) = al" and tB: "alias_text (customAlias reqB) = al"
    using assms(3,4) by (simp_all add: alias_text_def)
  have checkA: "alias_step eA now reqA Ready w = (Checked, w)"
    using assms(1,7,11) by (simp add: tA)
  have checkB: "alias_step eB now reqB Ready w = (Checked, w)"
    using assms(2,8,11) by (simp add: tB)
  {
    assume "pg_timestamp (compute_expiresAt now (expiresIn reqA)) \<noteq> None"
    then obtain ex where ex: "pg_timestamp (compute_expiresAt now (expiresIn reqA)) = Some ex"
      by auto
    let ?row = "new_row now (userId reqA) (originalUrl reqA) al (Some al) ex w"
    let ?w1 = "setCachedUrl eA now al ?row
                 (w\<lparr>urls := urls w @ [?row], urls_id_seq := Suc (urls_id_seq w)\<rparr>)"
    let ?created = "Created (base_url eA @ ''/'' @ al) al (originalUrl reqA)
                      (compute_expiresAt now (expiresIn reqA)) now"
    have insA: "alias_step eA now reqA Checked w = (Done ?created, ?w1)"
      using store_and_respond_fresh_alias[OF assms(3,6,11,9) ex] by (simp add: tA)
    have held: "select_by_code ?w1 al = [?row]"
      using assms(11) by (simp add: select_by_code_append new_row_def)
    then have ne: "select_by_code ?w1 al \<noteq> []" by simp
    have insB: "alias_step eB now reqB Checked ?w1 = (Done Error500, ?w1)"
      using store_and_respond_taken[OF assms(6) ne, of eB now reqB] by (simp add: tB)
    have lateB: "alias_step eB now reqB Ready ?w1
                   = (Done (Error400 ''Custom alias already taken''), ?w1)"
      using assms(2,8) ne by (simp add: tB)
    have stayB: "alias_step eB now reqB (Done (Error400 ''Custom alias already taken'')) ?w1
                   = (Done (Error400 ''Custom alias already taken''), ?w1)"
      by simp
    have race: "interleave eA reqA eB reqB now [True, False, True, False] (Ready, Ready, w)
            = (Done ?created, Done Error500, ?w1)"
      by (simp del: alias_step.simps add: checkA checkB insA insB)
    have seq: "interleave eA reqA eB reqB now [True, True, False, False] (Ready, Ready, w)
            = (Done ?created, Done (Error400 ''Custom alias already taken''), ?w1)"
      by (simp del: alias_step.simps add: checkA insA lateB stayB)
    have one: "length (select_by_code ?w1 al) = 1" using held by simp
    from race one
    show "\<exists>w'. interleave eA reqA eB reqB now [True, False, True, False] (Ready, Ready, w)
                 = (Done ?created, Done Error500, w')
              \<and> length (select_by_code w' al) = 1"
      by blast
    from seq one
    show "\<exists>w'. interleave eA reqA eB reqB now [True, True, False, False] (Ready, Ready, w)
                 = (Done ?created, Done (Error400 ''Custom alias already taken''), w')
              \<and> length (select_by_code w' al) = 1"
      by blast
  }
  {
    assume "pg_timestamp (compute_expiresAt now (expiresIn reqA)) = None"
    then have "store_and_respond eA now reqA al w = (Error500, w)"
      by (rule store_and_respond_refused)
    then have insA: "alias_step eA now reqA Checked w = (Done Error500, w)"
      by (simp add: tA)
    have stayA: "alias_step eA now reqA (Done Error500) w = (Done Error500, w)"
      by simp
    have insB: "alias_step eB now reqB Checked w
                  = (Done (fst (store_and_respond eB now reqB al w)),
                     snd (store_and_respond eB now reqB al w))"
      by (simp add: tB split: prod.splits)
    show "interleave eA reqA eB reqB now [True, False, True, False] (Ready, Ready, w)
              = (Done Error500, Done (fst (store_and_respond eB now reqB al w)),
                 snd (store_and_respond eB now reqB al w))"
      by (simp del: alias_step.simps add: checkA checkB insA insB)
    show "interleave eA reqA eB reqB now [True, True, False, False] (Ready, Ready, w)
              = (Done Error500, Done (fst (store_and_respond eB now reqB al w)),
                 snd (store_and_respond eB now reqB al w))"
      by (simp del: alias_step.simps add: checkA checkB insA insB)
  }
qed

theorem same_alias_race_witness:
  "validateUrl quiet_env (originalUrl (sample_req\<lparr>customAlias := Some ''promo''\<rparr>))
   \<and> customAlias (sample_req\<lparr>customAlias := Some ''promo'', userId := 2\<rparr>) = Some ''promo''
   \<and> select_by_code empty_world ''promo'' = []
   \<and> (\<exists>w'. interleave quiet_env (sample_req\<lparr>customAlias := Some ''promo''\<rparr>)
                         quiet_env (sample_req\<lparr>customAlias := Some ''promo'', userId := 2\<rparr>)
                         1000 [True, False, True, False] (Ready, Ready, empty_world)
               = (Done (Created ''https://linksnap.io/promo'' ''promo'' ''https://example.com/a'' None 1000),
                  Done Error500, w')
            \<and> length (select_by_code w' ''promo'') = 1)"
proof -
  let ?A = "sample_req\<lparr>customAlias := Some ''promo''\<rparr>"
  let ?B = "sample_req\<lparr>customAlias := Some ''promo'', userId := 2\<rparr>"
  have h: "validateUrl quiet_env (originalUrl ?A)" "validateUrl quiet_env (originalUrl ?B)"
    "customAlias ?A = Some ''promo''" "customAlias ?B = Some ''promo''"
    "''promo'' \<noteq> []" "length ''promo'' \<le> 20"
    "\<not> select_fails quiet_env 0" "\<not> select_fails quiet_env 0"
    "\<not> insert_fails quiet_env" "\<not> insert_fails quiet_env"
    "select_by_code empty_world ''promo'' = []"
    by (simp_all add: quiet_env_def sample_req_def select_by_code_def empty_world_def)
  have t: "pg_timestamp (compute_expiresAt 1000 (expiresIn ?A)) \<noteq> None"
    by (simp add: pg_timestamp_def compute_expiresAt_def sample_req_def)
  from same_alias_race [OF h, of 1000] t
  obtain w' where
    "interleave quiet_env ?A quiet_env ?B 1000 [True, False, True, False] (Ready, Ready, empty_world)
       = (Done (Created (base_url quiet_env @ ''/'' @ ''promo'') ''promo'' (originalUrl ?A)
                  (compute_expiresAt 1000 (expiresIn ?A)) 1000),
          Done Error500, w')"
    "length (select_by_code w' ''promo'') = 1"
    by blast
  then have "interleave quiet_env ?A quiet_env ?B 1000 [True, False, True, False] (Ready, Ready, empty_world)
       = (Done (Created ''https://linksnap.io/promo'' ''promo'' ''https://example.com/a'' None 1000),
          Done Error500, w')
     \<and> length (select_by_code w' ''promo'') = 1"
    by (simp add: quiet_env_def sample_req_def compute_expiresAt_def)
  then have "\<exists>w'. interleave quiet_env ?A quiet_env ?B 1000 [True, False, True, False]
                     (Ready, Ready, empty_world)
       = (Done (Created ''https://linksnap.io/promo'' ''promo'' ''https://example.com/a'' None 1000),
          Done Error500, w')
     \<and> length (select_by_code w' ''promo'') = 1"
    by blast
  with h show ?thesis by simp
qed

end
